theory Spec2Isabelle
  imports Main
begin

section \<open>ArduinoLog: the levelled logger of ArduinoLog.h and ArduinoLog.cpp\<close>

text \<open>
  The class \<^verbatim>\<open>Logging\<close> holds five fields and sends every message through the
  private template \<^verbatim>\<open>printLevel\<close>. The embedding follows the build in which
  \<^verbatim>\<open>DISABLE_LOGGING\<close> is not defined (the header leaves it commented out).

  \<^item> C++ \<^verbatim>\<open>int\<close> is modelled by \<^typ>\<open>int\<close>: the code only compares levels and
    computes \<^verbatim>\<open>level - 1\<close> on a level that has passed the filter, so no
    arithmetic of the program can wrap.
  \<^item> A pointer is an optional address: \<^term>\<open>None\<close> is \<^verbatim>\<open>nullptr\<close>.
  \<^item> The \<^verbatim>\<open>Print\<close> object and the hook functions are not part of the library.
    What the logger does to them is recorded, in order, as a list of events; what a
    hook does once it has been called is outside the program text and outside the model.
  \<^item> Calling a method through a null \<^verbatim>\<open>Print*\<close> and reading \<^verbatim>\<open>levels\<close> out of
    range are undefined behaviour in C++; the model makes them the faults below.
\<close>

subsection \<open>Constants (ArduinoLog.h, lines 34-40)\<close>

definition LOG_LEVEL_SILENT :: int where "LOG_LEVEL_SILENT = 0"
definition LOG_LEVEL_FATAL :: int where "LOG_LEVEL_FATAL = 1"
definition LOG_LEVEL_ERROR :: int where "LOG_LEVEL_ERROR = 2"
definition LOG_LEVEL_WARN :: int where "LOG_LEVEL_WARN = 3"
definition LOG_LEVEL_INFO :: int where "LOG_LEVEL_INFO = 4"
definition LOG_LEVEL_DEBUG :: int where "LOG_LEVEL_DEBUG = 5"
definition LOG_LEVEL_TRACE :: int where "LOG_LEVEL_TRACE = 6"

subsection \<open>Data\<close>

text \<open>\<^verbatim>\<open>Print*\<close>: the address of a sink, or null.\<close>

type_synonym print_ptr = "nat option"

text \<open>\<^verbatim>\<open>typedef void (*printfunction)(Print*)\<close>: the address of a hook, or null.\<close>

type_synonym printfunction = "nat option"

text \<open>
  The private fields \<^verbatim>\<open>_level\<close>, \<^verbatim>\<open>_showLevel\<close>, \<^verbatim>\<open>_logOutput\<close>, \<^verbatim>\<open>_prefix\<close>
  and \<^verbatim>\<open>_suffix\<close> (an Isabelle name cannot start with an underscore).
\<close>

record logging =
  m_level :: int
  m_showLevel :: bool
  m_logOutput :: print_ptr
  m_prefix :: printfunction
  m_suffix :: printfunction

text \<open>
  What the logger does to the outside: it calls a hook \<^verbatim>\<open>f(_logOutput)\<close>, or it
  calls one of three methods of the sink at address \<open>s\<close>: \<^verbatim>\<open>print(char)\<close>,
  \<^verbatim>\<open>print(const char*)\<close>, \<^verbatim>\<open>printf(msg, args...)\<close>. The message has any type
  \<open>'m\<close> (the template parameter \<^verbatim>\<open>T\<close>); the parameter pack is a list over \<open>'a\<close>.
\<close>

datatype ('m, 'a) event =
    Call_hook nat print_ptr
  | Print_char nat char
  | Print_str nat string
  | Printf nat 'm "'a list"

datatype fault = NullSink | GlyphIndex

subsection \<open>Configuration (ArduinoLog.h lines 73-81, ArduinoLog.cpp lines 34-87)\<close>

text \<open>
  The constructor's initialiser list and the default member initialisers of
  \<^verbatim>\<open>_prefix\<close> and \<^verbatim>\<open>_suffix\<close>.
\<close>

definition Logging :: logging where
  "Logging = \<lparr>m_level = LOG_LEVEL_SILENT, m_showLevel = True, m_logOutput = None,
     m_prefix = None, m_suffix = None\<rparr>"

text \<open>
  Modelled from the spec: the macro \<^verbatim>\<open>constrain\<close> comes from the Arduino core
  (\<^verbatim>\<open>Arduino.h\<close>), which is not among the sources. The specification says that the level
  is clamped into the range; the definition is the core's
  \<^verbatim>\<open>((amt)<(low)?(low):((amt)>(high)?(high):(amt)))\<close>.
\<close>

definition constrain :: "int \<Rightarrow> int \<Rightarrow> int \<Rightarrow> int" where
  "constrain amt low high = (if amt < low then low else if amt > high then high else amt)"

definition setLevel :: "logging \<Rightarrow> int \<Rightarrow> logging" where
  "setLevel lg level = lg\<lparr>m_level := constrain level LOG_LEVEL_SILENT LOG_LEVEL_TRACE\<rparr>"

definition getLevel :: "logging \<Rightarrow> int" where
  "getLevel lg = m_level lg"

definition setShowLevel :: "logging \<Rightarrow> bool \<Rightarrow> logging" where
  "setShowLevel lg showLevel = lg\<lparr>m_showLevel := showLevel\<rparr>"

definition getShowLevel :: "logging \<Rightarrow> bool" where
  "getShowLevel lg = m_showLevel lg"

definition setPrefix :: "logging \<Rightarrow> printfunction \<Rightarrow> logging" where
  "setPrefix lg f = lg\<lparr>m_prefix := f\<rparr>"

definition setSuffix :: "logging \<Rightarrow> printfunction \<Rightarrow> logging" where
  "setSuffix lg f = lg\<lparr>m_suffix := f\<rparr>"

text \<open>\<^verbatim>\<open>Logging::begin\<close> (\<open>begin\<close> is a keyword of Isabelle, hence the suffix).\<close>

definition begin_log :: "logging \<Rightarrow> int \<Rightarrow> print_ptr \<Rightarrow> bool \<Rightarrow> logging" where
  "begin_log lg level logOutput showLevel =
     (setShowLevel (setLevel lg level) showLevel)\<lparr>m_logOutput := logOutput\<rparr>"

subsection \<open>The sink and the hooks, as the dispatch uses them\<close>

text \<open>
  \<^verbatim>\<open>if (_prefix != nullptr) _prefix(_logOutput);\<close> and the same for \<^verbatim>\<open>_suffix\<close>:
  a null hook is skipped, any other is called with the sink pointer, null or not.
\<close>

definition call_hook ::
  "printfunction \<Rightarrow> print_ptr \<Rightarrow> ('m, 'a) event list \<Rightarrow> ('m, 'a) event list" where
  "call_hook h p tr = (case h of None \<Rightarrow> tr | Some f \<Rightarrow> tr @ [Call_hook f p])"

text \<open>The three method calls \<^verbatim>\<open>_logOutput->...\<close>: a null pointer is a fault.\<close>

definition sink_print_char ::
  "print_ptr \<Rightarrow> char \<Rightarrow> ('m, 'a) event list \<Rightarrow> fault + ('m, 'a) event list" where
  "sink_print_char p c tr =
     (case p of None \<Rightarrow> Inl NullSink | Some s \<Rightarrow> Inr (tr @ [Print_char s c]))"

definition sink_print_str ::
  "print_ptr \<Rightarrow> string \<Rightarrow> ('m, 'a) event list \<Rightarrow> fault + ('m, 'a) event list" where
  "sink_print_str p str tr =
     (case p of None \<Rightarrow> Inl NullSink | Some s \<Rightarrow> Inr (tr @ [Print_str s str]))"

definition sink_printf ::
  "print_ptr \<Rightarrow> 'm \<Rightarrow> 'a list \<Rightarrow> ('m, 'a) event list \<Rightarrow> fault + ('m, 'a) event list" where
  "sink_printf p msg args tr =
     (case p of None \<Rightarrow> Inl NullSink | Some s \<Rightarrow> Inr (tr @ [Printf s msg args]))"

text \<open>
  \<^verbatim>\<open>static const char levels[] = "FEWIDT";\<close> is an array of seven characters, the
  last one the terminating NUL. An index outside the array has no value.
\<close>

definition levels :: string where
  "levels = ''FEWIDT'' @ [CHR 0x00]"

definition levels_at :: "int \<Rightarrow> char option" where
  "levels_at i = (if 0 \<le> i \<and> i < int (length levels) then Some (levels ! nat i) else None)"

subsection \<open>Dispatch (ArduinoLog.h, lines 245-271)\<close>

text \<open>
  The state is the logger and the events so far. A call that returns gives \<open>Inr\<close> of
  the logger and the longer event list; a call that faults gives \<open>Inl\<close>.
\<close>

definition printLevel ::
  "logging \<Rightarrow> ('m, 'a) event list \<Rightarrow> int \<Rightarrow> 'm \<Rightarrow> 'a list
     \<Rightarrow> fault + (logging \<times> ('m, 'a) event list)" where
  "printLevel lg tr level msg args =
     (if level > m_level lg then Inr (lg, tr)
      else
        let tr1 = call_hook (m_prefix lg) (m_logOutput lg) tr in
        case (if m_showLevel lg then
                (case levels_at (level - 1) of
                   None \<Rightarrow> Inl GlyphIndex
                 | Some c \<Rightarrow>
                     (case sink_print_char (m_logOutput lg) c tr1 of
                        Inl e \<Rightarrow> Inl e
                      | Inr tr2 \<Rightarrow> sink_print_str (m_logOutput lg) '': '' tr2))
              else Inr tr1) of
          Inl e \<Rightarrow> Inl e
        | Inr tr3 \<Rightarrow>
            (case sink_printf (m_logOutput lg) msg args tr3 of
               Inl e \<Rightarrow> Inl e
             | Inr tr4 \<Rightarrow> Inr (lg, call_hook (m_suffix lg) (m_logOutput lg) tr4)))"

subsection \<open>The six entry points (ArduinoLog.h, lines 153-242)\<close>

text \<open>
  Every entry point takes the message and the parameter pack and returns nothing; in the
  model it takes the state as well and returns the new state or a fault.
\<close>

type_synonym ('m, 'a) log_call =
  "logging \<Rightarrow> ('m, 'a) event list \<Rightarrow> 'm \<Rightarrow> 'a list \<Rightarrow> fault + (logging \<times> ('m, 'a) event list)"

definition fatal :: "('m, 'a) log_call" where
  "fatal lg tr msg args = printLevel lg tr LOG_LEVEL_FATAL msg args"

definition error :: "('m, 'a) log_call" where
  "error lg tr msg args = printLevel lg tr LOG_LEVEL_ERROR msg args"

definition warn :: "('m, 'a) log_call" where
  "warn lg tr msg args = printLevel lg tr LOG_LEVEL_WARN msg args"

definition info :: "('m, 'a) log_call" where
  "info lg tr msg args = printLevel lg tr LOG_LEVEL_INFO msg args"

definition debug :: "('m, 'a) log_call" where
  "debug lg tr msg args = printLevel lg tr LOG_LEVEL_DEBUG msg args"

definition trace :: "('m, 'a) log_call" where
  "trace lg tr msg args = printLevel lg tr LOG_LEVEL_TRACE msg args"

text \<open>The entry points, each with the tier constant it hands to \<^verbatim>\<open>printLevel\<close>.\<close>

definition tier_calls :: "(int \<times> ('m, 'a) log_call) list" where
  "tier_calls =
     [(LOG_LEVEL_FATAL, fatal), (LOG_LEVEL_ERROR, error), (LOG_LEVEL_WARN, warn),
      (LOG_LEVEL_INFO, info), (LOG_LEVEL_DEBUG, debug), (LOG_LEVEL_TRACE, trace)]"

subsection \<open>Sequences of calls on the public interface\<close>

datatype ('m, 'a) api_call =
    Call_begin int print_ptr bool
  | Call_setLevel int
  | Call_setShowLevel bool
  | Call_setPrefix printfunction
  | Call_setSuffix printfunction
  | Call_fatal 'm "'a list"
  | Call_error 'm "'a list"
  | Call_warn 'm "'a list"
  | Call_info 'm "'a list"
  | Call_debug 'm "'a list"
  | Call_trace 'm "'a list"

fun exec ::
  "logging \<times> ('m, 'a) event list \<Rightarrow> ('m, 'a) api_call
     \<Rightarrow> fault + (logging \<times> ('m, 'a) event list)" where
  "exec (lg, tr) (Call_begin level logOutput showLevel) =
     Inr (begin_log lg level logOutput showLevel, tr)"
| "exec (lg, tr) (Call_setLevel level) = Inr (setLevel lg level, tr)"
| "exec (lg, tr) (Call_setShowLevel showLevel) = Inr (setShowLevel lg showLevel, tr)"
| "exec (lg, tr) (Call_setPrefix f) = Inr (setPrefix lg f, tr)"
| "exec (lg, tr) (Call_setSuffix f) = Inr (setSuffix lg f, tr)"
| "exec (lg, tr) (Call_fatal msg args) = fatal lg tr msg args"
| "exec (lg, tr) (Call_error msg args) = error lg tr msg args"
| "exec (lg, tr) (Call_warn msg args) = warn lg tr msg args"
| "exec (lg, tr) (Call_info msg args) = info lg tr msg args"
| "exec (lg, tr) (Call_debug msg args) = debug lg tr msg args"
| "exec (lg, tr) (Call_trace msg args) = trace lg tr msg args"

text \<open>A program is a list of calls; it stops at the first fault.\<close>

fun execs ::
  "logging \<times> ('m, 'a) event list \<Rightarrow> ('m, 'a) api_call list
     \<Rightarrow> fault + (logging \<times> ('m, 'a) event list)" where
  "execs st [] = Inr st"
| "execs st (c # cs) = (case exec st c of Inl e \<Rightarrow> Inl e | Inr st' \<Rightarrow> execs st' cs)"

section \<open>Properties\<close>

subsection \<open>Facts about the dispatch\<close>

lemmas LOG_LEVEL_defs = LOG_LEVEL_SILENT_def LOG_LEVEL_FATAL_def LOG_LEVEL_ERROR_def
  LOG_LEVEL_WARN_def LOG_LEVEL_INFO_def LOG_LEVEL_DEBUG_def LOG_LEVEL_TRACE_def

text \<open>Each entry point is \<^verbatim>\<open>printLevel\<close> at its own tier, a number from 1 to 6.\<close>

lemma tier_calls_printLevel:
  assumes "(T, call) \<in> set tier_calls"
  shows "1 \<le> T \<and> T \<le> 6 \<and> call = (\<lambda>lg tr msg args. printLevel lg tr T msg args)"
proof -
  have "fatal = (\<lambda>lg tr msg args. printLevel lg tr LOG_LEVEL_FATAL msg args)"
    by (intro ext) (simp add: fatal_def)
  moreover have "error = (\<lambda>lg tr msg args. printLevel lg tr LOG_LEVEL_ERROR msg args)"
    by (intro ext) (simp add: error_def)
  moreover have "warn = (\<lambda>lg tr msg args. printLevel lg tr LOG_LEVEL_WARN msg args)"
    by (intro ext) (simp add: warn_def)
  moreover have "info = (\<lambda>lg tr msg args. printLevel lg tr LOG_LEVEL_INFO msg args)"
    by (intro ext) (simp add: info_def)
  moreover have "debug = (\<lambda>lg tr msg args. printLevel lg tr LOG_LEVEL_DEBUG msg args)"
    by (intro ext) (simp add: debug_def)
  moreover have "trace = (\<lambda>lg tr msg args. printLevel lg tr LOG_LEVEL_TRACE msg args)"
    by (intro ext) (simp add: trace_def)
  ultimately show ?thesis
    using assms by (auto simp: tier_calls_def LOG_LEVEL_defs)
qed

lemma printLevel_filtered:
  "m_level lg < level \<Longrightarrow> printLevel lg tr level msg args = Inr (lg, tr)"
  by (simp add: printLevel_def)

text \<open>For the tiers 1 to 6 the index \<^verbatim>\<open>level - 1\<close> is inside \<^verbatim>\<open>levels\<close>, before the NUL.\<close>

lemma levels_at_tier:
  assumes "1 \<le> T" "T \<le> 6"
  shows "levels_at (T - 1) = Some (''FEWIDT'' ! nat (T - 1))"
proof -
  from assms have "T = 1 \<or> T = 2 \<or> T = 3 \<or> T = 4 \<or> T = 5 \<or> T = 6" by arith
  then show ?thesis
    by (elim disjE) (simp_all add: levels_at_def levels_def)
qed

text \<open>The events of a call that passes the filter, with a configured sink.\<close>

lemma printLevel_pass:
  assumes "level \<le> m_level lg" "1 \<le> level" "level \<le> 6" "m_logOutput lg = Some p"
  shows "printLevel lg tr level msg args =
           Inr (lg, tr @ call_hook (m_prefix lg) (Some p) []
                  @ (if m_showLevel lg
                     then [Print_char p (''FEWIDT'' ! nat (level - 1)), Print_str p '': '']
                     else [])
                  @ [Printf p msg args] @ call_hook (m_suffix lg) (Some p) [])"
  using assms
  by (simp add: printLevel_def levels_at_tier sink_print_char_def sink_print_str_def
      sink_printf_def call_hook_def split: option.split)

text \<open>
  Nothing in \<^verbatim>\<open>printLevel\<close> tests the sink pointer: with a null sink, a tier that
  passes the filter reaches \<^verbatim>\<open>_logOutput->print\<close> or \<^verbatim>\<open>_logOutput->printf\<close>.
\<close>

lemma printLevel_null_sink:
  assumes "level \<le> m_level lg" "1 \<le> level" "level \<le> 6" "m_logOutput lg = None"
  shows "printLevel lg tr level msg args = Inl NullSink"
  using assms
  by (simp add: printLevel_def Let_def levels_at_tier sink_print_char_def sink_print_str_def
      sink_printf_def)

text \<open>\<^verbatim>\<open>printLevel\<close> assigns to no field.\<close>

lemma printLevel_frame:
  "printLevel lg tr level msg args = Inr (lg', tr') \<Longrightarrow> lg' = lg"
  by (auto simp: printLevel_def Let_def split: if_splits sum.splits option.splits)


lemmas config_defs = Logging_def begin_log_def setLevel_def getLevel_def setShowLevel_def
  getShowLevel_def setPrefix_def setSuffix_def constrain_def

subsection \<open>The properties C1 to C10 of the specification\<close>

text \<open>
  C1. The threshold filter. Let \<open>call\<close> be one of the six entry points and \<open>T\<close> its
  tier. When \<open>T\<close> is above the threshold the call returns at once: the logger and the
  event list are as before, so nothing is written and no hook is called (whatever the
  sink pointer is). When the sink is configured, the call returns with the events
  \<open>evs\<close> added, the message is handed to the sink's \<^verbatim>\<open>printf\<close> exactly when
  \<open>T \<le> _level\<close>, and \<open>evs\<close> is empty exactly when \<open>_level < T\<close>. The theorem holds
  for every threshold, so for every threshold in \<open>[0,6]\<close>.
\<close>

theorem C1_threshold_filter:
  assumes "(T, call) \<in> set tier_calls"
  shows "(m_level lg < T \<longrightarrow> call lg tr msg args = Inr (lg, tr)) \<and>
         (m_logOutput lg = Some p \<longrightarrow>
            (\<exists>evs. call lg tr msg args = Inr (lg, tr @ evs) \<and>
                   (Printf p msg args \<in> set evs) = (T \<le> m_level lg) \<and>
                   (evs = []) = (m_level lg < T)))"
proof -
  from assms have T: "1 \<le> T" "T \<le> 6"
    and call: "call lg tr msg args = printLevel lg tr T msg args"
    using tier_calls_printLevel [OF assms] by simp_all
  have filtered: "m_level lg < T \<longrightarrow> call lg tr msg args = Inr (lg, tr)"
    by (simp add: call printLevel_filtered)
  have sink: "\<exists>evs. call lg tr msg args = Inr (lg, tr @ evs) \<and>
                   (Printf p msg args \<in> set evs) = (T \<le> m_level lg) \<and>
                   (evs = []) = (m_level lg < T)"
    if p: "m_logOutput lg = Some p"
  proof (cases "T \<le> m_level lg")
    case True
    from printLevel_pass [OF True T p, of tr msg args] True show ?thesis
      by (simp add: call)
  next
    case False
    then show ?thesis by (simp add: call printLevel_filtered)
  qed
  from filtered sink show ?thesis by blast
qed

text \<open>
  At threshold INFO with sink 0: \<^verbatim>\<open>debug\<close> is filtered, \<^verbatim>\<open>info\<close> reaches the sink.
\<close>

theorem C1_threshold_filter_witness:
  "(LOG_LEVEL_DEBUG, debug :: (string, int) log_call) \<in> set tier_calls \<and>
   (LOG_LEVEL_INFO, info :: (string, int) log_call) \<in> set tier_calls \<and>
   m_level (begin_log Logging 4 (Some 0) True) < LOG_LEVEL_DEBUG \<and>
   debug (begin_log Logging 4 (Some 0) True) [] ''x'' ([] :: int list)
     = Inr (begin_log Logging 4 (Some 0) True, []) \<and>
   m_logOutput (begin_log Logging 4 (Some 0) True) = Some 0 \<and>
   (\<exists>evs. info (begin_log Logging 4 (Some 0) True) [] ''x'' ([] :: int list)
            = Inr (begin_log Logging 4 (Some 0) True, evs) \<and>
          Printf 0 ''x'' [] \<in> set evs \<and> evs \<noteq> [])"
proof -
  let ?lg = "begin_log Logging 4 (Some 0) True"
  have d: "(LOG_LEVEL_DEBUG, debug :: (string, int) log_call) \<in> set tier_calls"
    and i: "(LOG_LEVEL_INFO, info :: (string, int) log_call) \<in> set tier_calls"
    by (simp_all add: tier_calls_def)
  have lv: "m_level ?lg = 4" and out: "m_logOutput ?lg = Some 0"
    by (simp_all add: config_defs LOG_LEVEL_defs)
  from C1_threshold_filter [OF d, of ?lg "[]" "''x''" "[]" 0]
    C1_threshold_filter [OF i, of ?lg "[]" "''x''" "[]" 0] d i lv out
  show ?thesis by (simp add: LOG_LEVEL_defs)
qed


text \<open>
  C2, as stated, fails. \<^verbatim>\<open>printLevel\<close> never tests \<^verbatim>\<open>_logOutput\<close>: what keeps a
  fresh logger from using the null sink is its threshold SILENT. After
  \<^verbatim>\<open>Log.setLevel(4)\<close> on the constructed logger the sink is still null, and
  \<^verbatim>\<open>Log.info("x")\<close> passes the filter and calls \<^verbatim>\<open>print\<close> through the null pointer.
\<close>

theorem C2_counterexample:
  "m_logOutput (setLevel Logging 4) = None \<and>
   info (setLevel Logging 4) [] ''x'' ([] :: int list) = Inl NullSink"
  by (simp add: info_def printLevel_def Let_def config_defs LOG_LEVEL_defs call_hook_def
      levels_at_def levels_def sink_print_char_def)

text \<open>
  C2, amended. On the constructed logger (threshold SILENT, null sink) every entry point
  returns with the logger and the event list as they were; and so it does on every logger
  whose sink is null and whose threshold is below the tier of the call.
\<close>

theorem C2_null_sink_filtered:
  assumes "(T, call) \<in> set tier_calls"
  shows "call Logging tr msg args = Inr (Logging, tr) \<and>
         (m_logOutput lg = None \<and> m_level lg < T \<longrightarrow> call lg tr msg args = Inr (lg, tr))"
proof -
  from tier_calls_printLevel [OF assms]
  have T: "1 \<le> T" and call: "call = (\<lambda>lg tr msg args. printLevel lg tr T msg args)"
    by simp_all
  have "m_level Logging < T"
    using T by (simp add: Logging_def LOG_LEVEL_SILENT_def)
  then show ?thesis
    by (simp add: call printLevel_filtered)
qed

text \<open>
  \<^verbatim>\<open>fatal\<close> before \<^verbatim>\<open>begin\<close>: on the constructed logger, and after
  \<^verbatim>\<open>setLevel(0)\<close> and \<^verbatim>\<open>setPrefix\<close>.
\<close>

theorem C2_null_sink_filtered_witness:
  "(LOG_LEVEL_FATAL, fatal :: (string, int) log_call) \<in> set tier_calls \<and>
   fatal Logging [] ''x'' ([] :: int list) = Inr (Logging, []) \<and>
   m_logOutput (setPrefix (setLevel Logging 0) (Some 3)) = None \<and>
   m_level (setPrefix (setLevel Logging 0) (Some 3)) < LOG_LEVEL_FATAL \<and>
   fatal (setPrefix (setLevel Logging 0) (Some 3)) [] ''x'' ([] :: int list)
     = Inr (setPrefix (setLevel Logging 0) (Some 3), [])"
proof -
  let ?lg = "setPrefix (setLevel Logging 0) (Some 3)"
  have f: "(LOG_LEVEL_FATAL, fatal :: (string, int) log_call) \<in> set tier_calls"
    by (simp add: tier_calls_def)
  have st: "m_logOutput ?lg = None" "m_level ?lg < LOG_LEVEL_FATAL"
    by (simp_all add: config_defs LOG_LEVEL_defs)
  from C2_null_sink_filtered [OF f, of "[]" "''x''" "[]" ?lg] f st
  show ?thesis by simp
qed

text \<open>
  C3. \<^verbatim>\<open>setLevel(x)\<close> and \<^verbatim>\<open>begin(x, sink, showLevel)\<close> store the clamp of \<open>x\<close> into
  \<open>[0,6]\<close>: \<^verbatim>\<open>getLevel()\<close> is then 0 for \<open>x < 0\<close>, 6 for \<open>x > 6\<close> and \<open>x\<close> otherwise;
  \<^verbatim>\<open>begin\<close> also stores the sink and the flag. \<^verbatim>\<open>setLevel(-5)\<close> gives 0 and
  \<^verbatim>\<open>setLevel(99)\<close> gives 6. Both operations are total functions of the state: no input
  is rejected.
\<close>

theorem C3_clamp:
  "getLevel (setLevel lg x) = (if x < 0 then 0 else if x > 6 then 6 else x) \<and>
   getLevel (begin_log lg x sink showLevel) = (if x < 0 then 0 else if x > 6 then 6 else x) \<and>
   m_logOutput (begin_log lg x sink showLevel) = sink \<and>
   getShowLevel (begin_log lg x sink showLevel) = showLevel \<and>
   getLevel (setLevel lg (- 5)) = 0 \<and>
   getLevel (setLevel lg 99) = 6"
  by (simp add: config_defs LOG_LEVEL_defs)

text \<open>
  C4. With \<^verbatim>\<open>_showLevel\<close> set, a configured sink \<open>p\<close> and a tier \<open>T\<close> that passes the
  filter, the call adds, after the prefix hook (if any): one \<^verbatim>\<open>print\<close> of the character
  of \<^verbatim>\<open>FEWIDT\<close> at index \<open>T - 1\<close>, one \<^verbatim>\<open>print\<close> of the string \<^verbatim>\<open>": "\<close>, then the
  \<^verbatim>\<open>printf\<close> of the message; the suffix hook (if any) follows.
\<close>

theorem C4_glyph:
  assumes "(T, call) \<in> set tier_calls" and "T \<le> m_level lg" and "m_showLevel lg"
    and "m_logOutput lg = Some p"
  shows "call lg tr msg args =
           Inr (lg, tr @ call_hook (m_prefix lg) (Some p) []
                  @ [Print_char p (''FEWIDT'' ! nat (T - 1)), Print_str p '': '',
                     Printf p msg args]
                  @ call_hook (m_suffix lg) (Some p) [])"
proof -
  from tier_calls_printLevel [OF assms(1)]
  have T: "1 \<le> T" "T \<le> 6" and call: "call = (\<lambda>lg tr msg args. printLevel lg tr T msg args)"
    by simp_all
  from printLevel_pass [OF assms(2) T assms(4), of tr msg args] assms(3)
  show ?thesis by (simp add: call)
qed

text \<open>
  At threshold TRACE without hooks, \<^verbatim>\<open>fatal("x")\<close> sends \<^verbatim>\<open>F\<close>, \<^verbatim>\<open>": "\<close> and
  the message \<^verbatim>\<open>x\<close> to the sink, and \<^verbatim>\<open>trace("x")\<close> sends \<^verbatim>\<open>T\<close>, \<^verbatim>\<open>": "\<close> and
  \<^verbatim>\<open>x\<close>.
\<close>

theorem C4_glyph_witness:
  "(LOG_LEVEL_FATAL, fatal :: (string, int) log_call) \<in> set tier_calls \<and>
   (LOG_LEVEL_TRACE, trace :: (string, int) log_call) \<in> set tier_calls \<and>
   LOG_LEVEL_TRACE \<le> m_level (begin_log Logging 6 (Some 0) True) \<and>
   m_showLevel (begin_log Logging 6 (Some 0) True) \<and>
   m_logOutput (begin_log Logging 6 (Some 0) True) = Some 0 \<and>
   fatal (begin_log Logging 6 (Some 0) True) [] ''x'' ([] :: int list)
     = Inr (begin_log Logging 6 (Some 0) True,
            [Print_char 0 CHR ''F'', Print_str 0 '': '', Printf 0 ''x'' []]) \<and>
   trace (begin_log Logging 6 (Some 0) True) [] ''x'' ([] :: int list)
     = Inr (begin_log Logging 6 (Some 0) True,
            [Print_char 0 CHR ''T'', Print_str 0 '': '', Printf 0 ''x'' []])"
proof -
  let ?lg = "begin_log Logging 6 (Some 0) True"
  have f: "(LOG_LEVEL_FATAL, fatal :: (string, int) log_call) \<in> set tier_calls"
    and t: "(LOG_LEVEL_TRACE, trace :: (string, int) log_call) \<in> set tier_calls"
    by (simp_all add: tier_calls_def)
  have st: "m_level ?lg = 6" "m_showLevel ?lg" "m_logOutput ?lg = Some 0"
    "m_prefix ?lg = None" "m_suffix ?lg = None"
    by (simp_all add: config_defs LOG_LEVEL_defs)
  have lf: "LOG_LEVEL_FATAL \<le> m_level ?lg" and lt: "LOG_LEVEL_TRACE \<le> m_level ?lg"
    by (simp_all add: st LOG_LEVEL_defs)
  from C4_glyph [OF f lf st(2) st(3), of "[]" "''x''" "[]"]
    C4_glyph [OF t lt st(2) st(3), of "[]" "''x''" "[]"] f t lt st
  show ?thesis by (simp add: call_hook_def LOG_LEVEL_defs)
qed


text \<open>
  C5. With the prefix hook \<open>f\<close> and the suffix hook \<open>g\<close> installed, a call whose tier
  passes the filter adds, in this order: one call of \<open>f\<close> with the sink pointer, the
  glyph and the separator (when \<^verbatim>\<open>_showLevel\<close> is set), the \<^verbatim>\<open>printf\<close> of the message,
  and one call of \<open>g\<close> with the sink pointer; nothing else. A call whose tier is above
  the threshold adds no event, so it calls neither hook.
\<close>

theorem C5_hook_order:
  assumes "(T, call) \<in> set tier_calls" and "m_prefix lg = Some f" and "m_suffix lg = Some g"
  shows "(m_level lg < T \<longrightarrow> call lg tr msg args = Inr (lg, tr)) \<and>
         (T \<le> m_level lg \<and> m_logOutput lg = Some p \<longrightarrow>
            call lg tr msg args =
              Inr (lg, tr @ [Call_hook f (Some p)]
                     @ (if m_showLevel lg
                        then [Print_char p (''FEWIDT'' ! nat (T - 1)), Print_str p '': '']
                        else [])
                     @ [Printf p msg args] @ [Call_hook g (Some p)]))"
proof -
  from tier_calls_printLevel [OF assms(1)]
  have T: "1 \<le> T" "T \<le> 6" and call: "call = (\<lambda>lg tr msg args. printLevel lg tr T msg args)"
    by simp_all
  have hooks: "call_hook (m_prefix lg) (Some p) [] = [Call_hook f (Some p) :: ('a, 'b) event]"
    "call_hook (m_suffix lg) (Some p) [] = [Call_hook g (Some p) :: ('a, 'b) event]"
    using assms(2,3) by (simp_all add: call_hook_def)
  show ?thesis
  proof (intro conjI impI)
    assume "m_level lg < T"
    then show "call lg tr msg args = Inr (lg, tr)"
      by (simp add: call printLevel_filtered)
  next
    assume pass: "T \<le> m_level lg \<and> m_logOutput lg = Some p"
    then have "T \<le> m_level lg" and "m_logOutput lg = Some p" by simp_all
    from printLevel_pass [OF this(1) T this(2), of tr msg args]
    show "call lg tr msg args =
              Inr (lg, tr @ [Call_hook f (Some p)]
                     @ (if m_showLevel lg
                        then [Print_char p (''FEWIDT'' ! nat (T - 1)), Print_str p '': '']
                        else [])
                     @ [Printf p msg args] @ [Call_hook g (Some p)])"
      by (simp add: call hooks)
  qed
qed


text \<open>
  Threshold INFO, sink 0, prefix hook 1, suffix hook 2: \<^verbatim>\<open>trace\<close> is filtered,
  \<^verbatim>\<open>warn\<close> calls hook 1, writes, calls hook 2.
\<close>

theorem C5_hook_order_witness:
  "(LOG_LEVEL_WARN, warn :: (string, int) log_call) \<in> set tier_calls \<and>
   (LOG_LEVEL_TRACE, trace :: (string, int) log_call) \<in> set tier_calls \<and>
   m_prefix (setSuffix (setPrefix (begin_log Logging 4 (Some 0) True) (Some 1)) (Some 2)) = Some 1 \<and>
   m_suffix (setSuffix (setPrefix (begin_log Logging 4 (Some 0) True) (Some 1)) (Some 2)) = Some 2 \<and>
   m_level (setSuffix (setPrefix (begin_log Logging 4 (Some 0) True) (Some 1)) (Some 2))
     < LOG_LEVEL_TRACE \<and>
   trace (setSuffix (setPrefix (begin_log Logging 4 (Some 0) True) (Some 1)) (Some 2))
       [] ''x'' ([] :: int list)
     = Inr (setSuffix (setPrefix (begin_log Logging 4 (Some 0) True) (Some 1)) (Some 2), []) \<and>
   LOG_LEVEL_WARN
     \<le> m_level (setSuffix (setPrefix (begin_log Logging 4 (Some 0) True) (Some 1)) (Some 2)) \<and>
   m_logOutput (setSuffix (setPrefix (begin_log Logging 4 (Some 0) True) (Some 1)) (Some 2))
     = Some 0 \<and>
   warn (setSuffix (setPrefix (begin_log Logging 4 (Some 0) True) (Some 1)) (Some 2))
       [] ''x'' ([] :: int list)
     = Inr (setSuffix (setPrefix (begin_log Logging 4 (Some 0) True) (Some 1)) (Some 2),
            [Call_hook 1 (Some 0), Print_char 0 CHR ''W'', Print_str 0 '': '',
             Printf 0 ''x'' [], Call_hook 2 (Some 0)])"
proof -
  let ?lg = "setSuffix (setPrefix (begin_log Logging 4 (Some 0) True) (Some 1)) (Some 2)"
  have w: "(LOG_LEVEL_WARN, warn :: (string, int) log_call) \<in> set tier_calls"
    and t: "(LOG_LEVEL_TRACE, trace :: (string, int) log_call) \<in> set tier_calls"
    by (simp_all add: tier_calls_def)
  have st: "m_prefix ?lg = Some 1" "m_suffix ?lg = Some 2" "m_level ?lg = 4"
    "m_logOutput ?lg = Some 0" "m_showLevel ?lg"
    by (simp_all add: config_defs LOG_LEVEL_defs)
  from C5_hook_order [OF w st(1) st(2), of "[]" "''x''" "[]" 0]
    C5_hook_order [OF t st(1) st(2), of "[]" "''x''" "[]" 0] w t st
  show ?thesis by (simp add: LOG_LEVEL_defs)
qed

text \<open>
  C6. With \<^verbatim>\<open>_showLevel\<close> false, a call whose tier passes the filter adds the
  \<^verbatim>\<open>printf\<close> of the message between the hook calls (if any), and neither a glyph nor
  the separator.
\<close>

theorem C6_no_glyph:
  assumes "(T, call) \<in> set tier_calls" and "T \<le> m_level lg" and "\<not> m_showLevel lg"
    and "m_logOutput lg = Some p"
  shows "call lg tr msg args =
           Inr (lg, tr @ call_hook (m_prefix lg) (Some p) [] @ [Printf p msg args]
                  @ call_hook (m_suffix lg) (Some p) [])"
proof -
  from tier_calls_printLevel [OF assms(1)]
  have T: "1 \<le> T" "T \<le> 6" and call: "call = (\<lambda>lg tr msg args. printLevel lg tr T msg args)"
    by simp_all
  from printLevel_pass [OF assms(2) T assms(4), of tr msg args] assms(3)
  show ?thesis by (simp add: call)
qed

text \<open>\<^verbatim>\<open>error("x")\<close> at threshold TRACE with the glyph switched off.\<close>

theorem C6_no_glyph_witness:
  "(LOG_LEVEL_ERROR, error :: (string, int) log_call) \<in> set tier_calls \<and>
   LOG_LEVEL_ERROR \<le> m_level (begin_log Logging 6 (Some 0) False) \<and>
   \<not> m_showLevel (begin_log Logging 6 (Some 0) False) \<and>
   m_logOutput (begin_log Logging 6 (Some 0) False) = Some 0 \<and>
   error (begin_log Logging 6 (Some 0) False) [] ''x'' ([] :: int list)
     = Inr (begin_log Logging 6 (Some 0) False, [Printf 0 ''x'' []])"
proof -
  let ?lg = "begin_log Logging 6 (Some 0) False"
  have e: "(LOG_LEVEL_ERROR, error :: (string, int) log_call) \<in> set tier_calls"
    by (simp add: tier_calls_def)
  have st: "LOG_LEVEL_ERROR \<le> m_level ?lg" "\<not> m_showLevel ?lg" "m_logOutput ?lg = Some 0"
    "m_prefix ?lg = None" "m_suffix ?lg = None"
    by (simp_all add: config_defs LOG_LEVEL_defs)
  from C6_no_glyph [OF e st(1) st(2) st(3), of "[]" "''x''" "[]"] e st
  show ?thesis by (simp add: call_hook_def)
qed

text \<open>Every call of the public interface keeps the threshold in \<open>[0,6]\<close>.\<close>

lemma exec_level_range:
  assumes "exec (lg, tr) c = Inr (lg', tr')" and "0 \<le> m_level lg \<and> m_level lg \<le> 6"
  shows "0 \<le> m_level lg' \<and> m_level lg' \<le> 6"
proof (cases c)
  case (Call_begin level logOutput showLevel)
  with assms(1) show ?thesis by (auto simp: config_defs LOG_LEVEL_defs)
next
  case (Call_setLevel level)
  with assms(1) show ?thesis by (auto simp: config_defs LOG_LEVEL_defs)
next
  case (Call_setShowLevel b)
  with assms show ?thesis by (auto simp: config_defs)
next
  case (Call_setPrefix f)
  with assms show ?thesis by (auto simp: config_defs)
next
  case (Call_setSuffix f)
  with assms show ?thesis by (auto simp: config_defs)
next
  case (Call_fatal msg args)
  with assms show ?thesis by (auto simp: fatal_def dest: printLevel_frame)
next
  case (Call_error msg args)
  with assms show ?thesis by (auto simp: error_def dest: printLevel_frame)
next
  case (Call_warn msg args)
  with assms show ?thesis by (auto simp: warn_def dest: printLevel_frame)
next
  case (Call_info msg args)
  with assms show ?thesis by (auto simp: info_def dest: printLevel_frame)
next
  case (Call_debug msg args)
  with assms show ?thesis by (auto simp: debug_def dest: printLevel_frame)
next
  case (Call_trace msg args)
  with assms show ?thesis by (auto simp: trace_def dest: printLevel_frame)
qed

lemma execs_level_range:
  "execs st cs = Inr st' \<Longrightarrow> 0 \<le> m_level (fst st) \<and> m_level (fst st) \<le> 6
     \<Longrightarrow> 0 \<le> m_level (fst st') \<and> m_level (fst st') \<le> 6"
proof (induction cs arbitrary: st)
  case Nil
  then show ?case by simp
next
  case (Cons c cs)
  from Cons.prems(1) obtain st1 where step: "exec st c = Inr st1" and rest: "execs st1 cs = Inr st'"
    by (auto split: sum.splits)
  from step Cons.prems(2) have "0 \<le> m_level (fst st1) \<and> m_level (fst st1) \<le> 6"
    using exec_level_range [of "fst st" "snd st" c "fst st1" "snd st1"] by simp
  with rest show ?case by (rule Cons.IH)
qed

text \<open>
  C7. The constructed logger has threshold SILENT = 0, and after any finite sequence of
  calls of the public interface, starting from the constructed logger, \<^verbatim>\<open>getLevel()\<close>
  is in \<open>[0,6]\<close>.
\<close>

theorem C7_level_range:
  assumes "execs (Logging, tr) cs = Inr (lg, tr')"
  shows "getLevel Logging = 0 \<and> 0 \<le> getLevel lg \<and> getLevel lg \<le> 6"
  using execs_level_range [OF assms]
  by (simp add: getLevel_def Logging_def LOG_LEVEL_SILENT_def)


text \<open>
  \<^verbatim>\<open>setLevel(99); begin(-5, sink, true); setLevel(4); info("x")\<close> returns, with
  threshold 4.
\<close>

theorem C7_level_range_witness:
  "execs (Logging, [])
     [Call_setLevel 99, Call_begin (- 5) (Some 0) True, Call_setLevel 4, Call_info ''x'' []]
     = Inr (setLevel (begin_log (setLevel Logging 99) (- 5) (Some 0) True) 4,
            [Print_char 0 CHR ''I'', Print_str 0 '': '', Printf 0 ''x'' ([] :: int list)]) \<and>
   getLevel Logging = 0 \<and>
   0 \<le> getLevel (setLevel (begin_log (setLevel Logging 99) (- 5) (Some 0) True) 4) \<and>
   getLevel (setLevel (begin_log (setLevel Logging 99) (- 5) (Some 0) True) 4) \<le> 6"
proof -
  have run: "execs (Logging, [])
     [Call_setLevel 99, Call_begin (- 5) (Some 0) True, Call_setLevel 4, Call_info ''x'' []]
     = Inr (setLevel (begin_log (setLevel Logging 99) (- 5) (Some 0) True) 4,
            [Print_char 0 CHR ''I'', Print_str 0 '': '', Printf 0 ''x'' ([] :: int list)])"
    by (simp add: info_def printLevel_def Let_def config_defs LOG_LEVEL_defs call_hook_def
        levels_at_def levels_def sink_print_char_def sink_print_str_def sink_printf_def)
  from C7_level_range [OF run] run show ?thesis by simp
qed

text \<open>
  C8. \<^verbatim>\<open>setPrefix(nullptr)\<close> empties the prefix slot and leaves the suffix slot as it
  was, and \<^verbatim>\<open>setSuffix(nullptr)\<close> the other way round. A call that passes the filter
  on the logger \<open>lg\<close> adds the prefix call, the body and the suffix call; on
  \<open>setPrefix lg None\<close> it adds the same body and the same suffix call and no prefix
  call; on \<open>setSuffix lg None\<close> it adds the same prefix call and the same body and no
  suffix call. The call returns the logger it was given, so this holds for every later
  call as well.
\<close>

theorem C8_clear_hook:
  assumes "(T, call) \<in> set tier_calls" and "T \<le> m_level lg" and "m_logOutput lg = Some p"
  shows "m_prefix (setPrefix lg None) = None \<and> m_suffix (setPrefix lg None) = m_suffix lg \<and>
         m_suffix (setSuffix lg None) = None \<and> m_prefix (setSuffix lg None) = m_prefix lg \<and>
         call lg tr msg args =
           Inr (lg, tr @ call_hook (m_prefix lg) (Some p) []
                  @ (if m_showLevel lg
                     then [Print_char p (''FEWIDT'' ! nat (T - 1)), Print_str p '': '']
                     else [])
                  @ [Printf p msg args] @ call_hook (m_suffix lg) (Some p) []) \<and>
         call (setPrefix lg None) tr msg args =
           Inr (setPrefix lg None, tr
                  @ (if m_showLevel lg
                     then [Print_char p (''FEWIDT'' ! nat (T - 1)), Print_str p '': '']
                     else [])
                  @ [Printf p msg args] @ call_hook (m_suffix lg) (Some p) []) \<and>
         call (setSuffix lg None) tr msg args =
           Inr (setSuffix lg None, tr @ call_hook (m_prefix lg) (Some p) []
                  @ (if m_showLevel lg
                     then [Print_char p (''FEWIDT'' ! nat (T - 1)), Print_str p '': '']
                     else [])
                  @ [Printf p msg args])"
proof -
  from tier_calls_printLevel [OF assms(1)]
  have T: "1 \<le> T" "T \<le> 6" and call: "call = (\<lambda>lg tr msg args. printLevel lg tr T msg args)"
    by simp_all
  have fields: "m_prefix (setPrefix lg None) = None" "m_suffix (setPrefix lg None) = m_suffix lg"
    "m_suffix (setSuffix lg None) = None" "m_prefix (setSuffix lg None) = m_prefix lg"
    by (simp_all add: setPrefix_def setSuffix_def)
  have before: "printLevel lg tr T msg args =
           Inr (lg, tr @ call_hook (m_prefix lg) (Some p) []
                  @ (if m_showLevel lg
                     then [Print_char p (''FEWIDT'' ! nat (T - 1)), Print_str p '': '']
                     else [])
                  @ [Printf p msg args] @ call_hook (m_suffix lg) (Some p) [])"
    by (rule printLevel_pass [OF assms(2) T assms(3)])
  have "T \<le> m_level (setPrefix lg None)" and "m_logOutput (setPrefix lg None) = Some p"
    using assms(2,3) by (simp_all add: setPrefix_def)
  from printLevel_pass [OF this(1) T this(2), of tr msg args]
  have no_prefix: "printLevel (setPrefix lg None) tr T msg args =
           Inr (setPrefix lg None, tr
                  @ (if m_showLevel lg
                     then [Print_char p (''FEWIDT'' ! nat (T - 1)), Print_str p '': '']
                     else [])
                  @ [Printf p msg args] @ call_hook (m_suffix lg) (Some p) [])"
    by (simp add: setPrefix_def call_hook_def)
  have "T \<le> m_level (setSuffix lg None)" and "m_logOutput (setSuffix lg None) = Some p"
    using assms(2,3) by (simp_all add: setSuffix_def)
  from printLevel_pass [OF this(1) T this(2), of tr msg args]
  have no_suffix: "printLevel (setSuffix lg None) tr T msg args =
           Inr (setSuffix lg None, tr @ call_hook (m_prefix lg) (Some p) []
                  @ (if m_showLevel lg
                     then [Print_char p (''FEWIDT'' ! nat (T - 1)), Print_str p '': '']
                     else [])
                  @ [Printf p msg args])"
    by (simp add: setSuffix_def call_hook_def)
  from fields before no_prefix no_suffix show ?thesis
    unfolding call by simp
qed

text \<open>
  Threshold INFO, sink 0, prefix hook 1, suffix hook 2, and \<^verbatim>\<open>warn("x")\<close>: with both
  hooks, after \<^verbatim>\<open>setPrefix(nullptr)\<close>, and after \<^verbatim>\<open>setSuffix(nullptr)\<close>.
\<close>

theorem C8_clear_hook_witness:
  "(LOG_LEVEL_WARN, warn :: (string, int) log_call) \<in> set tier_calls \<and>
   LOG_LEVEL_WARN
     \<le> m_level (setSuffix (setPrefix (begin_log Logging 4 (Some 0) True) (Some 1)) (Some 2)) \<and>
   m_logOutput (setSuffix (setPrefix (begin_log Logging 4 (Some 0) True) (Some 1)) (Some 2))
     = Some 0 \<and>
   m_suffix (setPrefix
       (setSuffix (setPrefix (begin_log Logging 4 (Some 0) True) (Some 1)) (Some 2)) None)
     = Some 2 \<and>
   m_prefix (setSuffix
       (setSuffix (setPrefix (begin_log Logging 4 (Some 0) True) (Some 1)) (Some 2)) None)
     = Some 1 \<and>
   warn (setSuffix (setPrefix (begin_log Logging 4 (Some 0) True) (Some 1)) (Some 2))
       [] ''x'' ([] :: int list)
     = Inr (setSuffix (setPrefix (begin_log Logging 4 (Some 0) True) (Some 1)) (Some 2),
            [Call_hook 1 (Some 0), Print_char 0 CHR ''W'', Print_str 0 '': '',
             Printf 0 ''x'' [], Call_hook 2 (Some 0)]) \<and>
   warn (setPrefix
         (setSuffix (setPrefix (begin_log Logging 4 (Some 0) True) (Some 1)) (Some 2)) None)
       [] ''x'' ([] :: int list)
     = Inr (setPrefix
              (setSuffix (setPrefix (begin_log Logging 4 (Some 0) True) (Some 1)) (Some 2)) None,
            [Print_char 0 CHR ''W'', Print_str 0 '': '', Printf 0 ''x'' [],
             Call_hook 2 (Some 0)]) \<and>
   warn (setSuffix
         (setSuffix (setPrefix (begin_log Logging 4 (Some 0) True) (Some 1)) (Some 2)) None)
       [] ''x'' ([] :: int list)
     = Inr (setSuffix
              (setSuffix (setPrefix (begin_log Logging 4 (Some 0) True) (Some 1)) (Some 2)) None,
            [Call_hook 1 (Some 0), Print_char 0 CHR ''W'', Print_str 0 '': '',
             Printf 0 ''x'' []])"
proof -
  let ?lg = "setSuffix (setPrefix (begin_log Logging 4 (Some 0) True) (Some 1)) (Some 2)"
  have w: "(LOG_LEVEL_WARN, warn :: (string, int) log_call) \<in> set tier_calls"
    by (simp add: tier_calls_def)
  have st: "LOG_LEVEL_WARN \<le> m_level ?lg" "m_logOutput ?lg = Some 0"
    "m_prefix ?lg = Some 1" "m_suffix ?lg = Some 2" "m_showLevel ?lg"
    by (simp_all add: config_defs LOG_LEVEL_defs)
  from C8_clear_hook [OF w st(1) st(2), of "[]" "''x''" "[]"] w st
  show ?thesis by (simp add: call_hook_def LOG_LEVEL_defs)
qed

text \<open>
  C9. Each configuration call made twice with the same arguments leaves the logger as the
  first call left it (\<^verbatim>\<open>setLevel\<close>, \<^verbatim>\<open>setShowLevel\<close>, \<^verbatim>\<open>setPrefix\<close>,
  \<^verbatim>\<open>setSuffix\<close>, and \<^verbatim>\<open>begin\<close>; in particular \<^verbatim>\<open>setLevel(4)\<close>), and the dispatch
  at any tier, on any message, does the same after two calls as after one.
\<close>

theorem C9_idempotent:
  "setLevel (setLevel lg x) x = setLevel lg x \<and>
   setShowLevel (setShowLevel lg b) b = setShowLevel lg b \<and>
   setPrefix (setPrefix lg f) f = setPrefix lg f \<and>
   setSuffix (setSuffix lg f) f = setSuffix lg f \<and>
   begin_log (begin_log lg x p b) x p b = begin_log lg x p b \<and>
   setLevel (setLevel lg 4) 4 = setLevel lg 4 \<and>
   printLevel (setLevel (setLevel lg x) x) tr T msg args
     = printLevel (setLevel lg x) tr T msg args \<and>
   printLevel (setShowLevel (setShowLevel lg b) b) tr T msg args
     = printLevel (setShowLevel lg b) tr T msg args \<and>
   printLevel (setPrefix (setPrefix lg f) f) tr T msg args
     = printLevel (setPrefix lg f) tr T msg args \<and>
   printLevel (setSuffix (setSuffix lg f) f) tr T msg args
     = printLevel (setSuffix lg f) tr T msg args"
  by (simp add: setLevel_def setShowLevel_def setPrefix_def setSuffix_def begin_log_def)

text \<open>
  C10. A logging call that returns, filtered or not, returns the logger it was given:
  threshold, flag, sink pointer and both hooks are as before. With a configured sink
  every logging call returns.
\<close>

theorem C10_frame:
  assumes "(T, call) \<in> set tier_calls"
  shows "(call lg tr msg args = Inr (lg', tr') \<longrightarrow> lg' = lg) \<and>
         (m_logOutput lg = Some p \<longrightarrow> (\<exists>evs. call lg tr msg args = Inr (lg, tr @ evs)))"
proof -
  from tier_calls_printLevel [OF assms]
  have T: "1 \<le> T" "T \<le> 6" and call: "call = (\<lambda>lg tr msg args. printLevel lg tr T msg args)"
    by simp_all
  have frame: "call lg tr msg args = Inr (lg', tr') \<longrightarrow> lg' = lg"
    unfolding call by (blast dest: printLevel_frame)
  have returns: "\<exists>evs. call lg tr msg args = Inr (lg, tr @ evs)" if p: "m_logOutput lg = Some p"
  proof (cases "T \<le> m_level lg")
    case True
    from printLevel_pass [OF True T p, of tr msg args] show ?thesis
      unfolding call by blast
  next
    case False
    then have "printLevel lg tr T msg args = Inr (lg, tr @ [])"
      by (simp add: printLevel_filtered)
    then show ?thesis unfolding call by blast
  qed
  from frame returns show ?thesis by blast
qed

text \<open>\<^verbatim>\<open>debug("x")\<close> at threshold DEBUG returns the logger unchanged.\<close>

theorem C10_frame_witness:
  "(LOG_LEVEL_DEBUG, debug :: (string, int) log_call) \<in> set tier_calls \<and>
   m_logOutput (begin_log Logging 5 (Some 0) False) = Some 0 \<and>
   debug (begin_log Logging 5 (Some 0) False) [] ''x'' ([] :: int list)
     = Inr (begin_log Logging 5 (Some 0) False, [Printf 0 ''x'' []])"
proof -
  let ?lg = "begin_log Logging 5 (Some 0) False"
  have d: "(LOG_LEVEL_DEBUG, debug :: (string, int) log_call) \<in> set tier_calls"
    by (simp add: tier_calls_def)
  have run: "debug ?lg [] ''x'' ([] :: int list) = Inr (?lg, [Printf 0 ''x'' []])"
    by (simp add: debug_def printLevel_def Let_def config_defs LOG_LEVEL_defs call_hook_def
        sink_printf_def)
  have out: "m_logOutput ?lg = Some 0"
    by (simp add: config_defs)
  from C10_frame [OF d, of ?lg "[]" "''x''" "[]" ?lg "[Printf 0 ''x'' []]" 0] d run out
  show ?thesis by simp
qed

end
